theory Spec2Isabelle
  imports Main "HOL-Library.Word"
begin

section \<open>JavaScript strings\<close>

text \<open>
  A JavaScript string is a sequence of UTF-16 code units and \<^verbatim>\<open>length\<close> counts code
  units, so a string is a list of 16-bit words.  \<open>js\<close> embeds an ASCII literal.
\<close>

type_synonym jschar = "16 word"
type_synonym jsstring = "jschar list"

definition js :: "string \<Rightarrow> jsstring" where
  "js s = map of_char s"

text \<open>
  \<^verbatim>\<open>String.prototype.trim\<close> strips WhiteSpace and LineTerminator code units from both
  ends (ECMA-262): TAB, LF, VT, FF, CR, SP, NBSP, U+1680, U+2000..U+200A, U+2028,
  U+2029, U+202F, U+205F, U+3000 and U+FEFF.
\<close>

definition is_whitespace :: "jschar \<Rightarrow> bool" where
  "is_whitespace c =
     (c = 0x09 \<or> c = 0x0A \<or> c = 0x0B \<or> c = 0x0C \<or> c = 0x0D \<or> c = 0x20 \<or> c = 0xA0 \<or>
      c = 0x1680 \<or> (0x2000 \<le> c \<and> c \<le> 0x200A) \<or> c = 0x2028 \<or> c = 0x2029 \<or>
      c = 0x202F \<or> c = 0x205F \<or> c = 0x3000 \<or> c = 0xFEFF)"

definition trim :: "jsstring \<Rightarrow> jsstring" where
  "trim s = rev (dropWhile is_whitespace (rev (dropWhile is_whitespace s)))"

text \<open>\<^verbatim>\<open>s.substr(0, n)\<close> and \<^verbatim>\<open>s.substr(n)\<close> for \<open>n \<ge> 0\<close> are \<open>take n s\<close> and \<open>drop n s\<close>.\<close>

definition newline :: jschar where
  "newline = 0x0A"

text \<open>
  \<^verbatim>\<open>text.split('\n')\<close>: the pieces between the newlines; a string without a newline
  (the empty string too) gives one piece.
\<close>

fun cons_first :: "'a \<Rightarrow> 'a list list \<Rightarrow> 'a list list" where
  "cons_first c [] = [[c]]"
| "cons_first c (p # ps) = (c # p) # ps"

fun split_lines :: "jsstring \<Rightarrow> jsstring list" where
  "split_lines [] = [[]]"
| "split_lines (c # cs) =
     (if c = newline then [] # split_lines cs else cons_first c (split_lines cs))"

section \<open>Slack: splitUpMessage\<close>

definition MSG_SIZE_LIMIT :: nat where
  "MSG_SIZE_LIMIT = 4000"

definition continuation :: jsstring where
  "continuation = js ''...''"

definition limit :: nat where
  "limit = MSG_SIZE_LIMIT - length continuation"

text \<open>
  The \<^verbatim>\<open>while (line.length > 0)\<close> loop of the hard split: \<open>line\<close> is the rest of the
  line still to cut, \<open>messages\<close> the chunks pushed so far.
\<close>

function hardSplit :: "jsstring \<Rightarrow> jsstring list \<Rightarrow> jsstring list" where
  "hardSplit line messages =
     (if length line > 0 then
        (let last = trim (take limit line);
             line' = trim (drop limit line)
         in if length line' \<noteq> 0
            then hardSplit (continuation @ line') (messages @ [last @ continuation])
            else hardSplit line' (messages @ [last]))
      else messages)"
  by pat_completeness auto
termination
proof (relation "measure (\<lambda>(line, messages). length line)")
  show "wf (measure (\<lambda>(line, messages). length line))"
    by simp
next
  fix line :: jsstring and messages :: "jsstring list" and x xa
  assume pos: "0 < length line" and xa: "xa = trim (drop limit line)"
    and ne: "length xa \<noteq> 0"
  have lim: "limit = 3997"
    by (simp add: limit_def MSG_SIZE_LIMIT_def continuation_def js_def)
  have "length xa \<le> length (dropWhile is_whitespace (drop limit line))"
    unfolding xa trim_def by (metis length_dropWhile_le length_rev)
  also have "\<dots> \<le> length (drop limit line)"
    by (rule length_dropWhile_le)
  finally have "length xa \<le> length line - 3997"
    by (simp add: lim)
  moreover have "length (continuation @ xa) = 3 + length xa"
    by (simp add: continuation_def js_def)
  ultimately have "length (continuation @ xa) < length line"
    using ne by arith
  then show "((continuation @ xa, messages @ [x @ continuation]), (line, messages))
      \<in> measure (\<lambda>(line, messages). length line)"
    by simp
next
  fix line :: jsstring and messages :: "jsstring list" and x xa
  assume pos: "0 < length line" and xa: "xa = trim (drop limit line)"
    and e: "\<not> length xa \<noteq> 0"
  then show "((xa, messages @ [x]), (line, messages))
      \<in> measure (\<lambda>(line, messages). length line)"
    by simp
qed

declare hardSplit.simps [simp del]

text \<open>
  The body of \<^verbatim>\<open>lines.forEach\<close>: the state is the accumulating \<open>block\<close> and the
  \<open>messages\<close> pushed so far.
\<close>

definition forEach_line :: "jsstring \<times> jsstring list \<Rightarrow> jsstring \<Rightarrow> jsstring \<times> jsstring list" where
  "forEach_line st line =
     (let block = fst st; messages = snd st;
          tmpBlock = block @ line @ [newline]
      in if length tmpBlock \<le> MSG_SIZE_LIMIT then (tmpBlock, messages)
         else if length block \<noteq> 0 then (line, messages @ [block])
         else (block, hardSplit line messages))"

definition splitUpMessage :: "jsstring \<Rightarrow> jsstring list" where
  "splitUpMessage text =
     (if length text \<le> MSG_SIZE_LIMIT then [text]
      else
        (let lines = split_lines text;
             st = foldl forEach_line ([], []) lines;
             block = fst st; messages = snd st
         in if block \<noteq> [] then messages @ [block] else messages))"

section \<open>JavaScript values, objects and exceptions\<close>

datatype jsvalue = Undefined | Null | Bool bool | Str jsstring | Arr "jsstring list"

text \<open>
  A plain object: its own enumerable properties in insertion order.  Reading a missing
  property gives \<^verbatim>\<open>undefined\<close>; writing an existing one keeps its position.
\<close>

type_synonym obj = "(string \<times> jsvalue) list"

definition get_prop :: "obj \<Rightarrow> string \<Rightarrow> jsvalue" where
  "get_prop ob k = (case map_of ob k of None \<Rightarrow> Undefined | Some v \<Rightarrow> v)"

fun set_prop :: "obj \<Rightarrow> string \<Rightarrow> jsvalue \<Rightarrow> obj" where
  "set_prop [] k v = [(k, v)]"
| "set_prop (p # ps) k v = (if fst p = k then (k, v) # ps else p # set_prop ps k v)"

definition object_keys :: "obj \<Rightarrow> string list" where
  "object_keys ob = map fst ob"

definition object_assign :: "obj \<Rightarrow> obj \<Rightarrow> obj" where
  "object_assign target source = foldl (\<lambda>t p. set_prop t (fst p) (snd p)) target source"

text \<open>\<^verbatim>\<open>x && x.length\<close> as a condition, \<^verbatim>\<open>x.length\<close> and \<^verbatim>\<open>x[i]\<close>.\<close>

fun js_length :: "jsvalue \<Rightarrow> nat" where
  "js_length (Arr ts) = length ts"
| "js_length (Str s) = length s"
| "js_length v = 0"

definition has_length :: "jsvalue \<Rightarrow> bool" where
  "has_length v = (js_length v \<noteq> 0)"

fun js_index :: "jsvalue \<Rightarrow> nat \<Rightarrow> jsvalue" where
  "js_index (Arr ts) i = (if i < length ts then Str (ts ! i) else Undefined)"
| "js_index (Str s) i = (if i < length s then Str [s ! i] else Undefined)"
| "js_index v i = Undefined"


text \<open>
  A thrown value or the reason of a rejected promise: an \<^verbatim>\<open>Error\<close> with its message, the
  \<^verbatim>\<open>TypeError\<close> that the engine raises on reading a property of \<^verbatim>\<open>undefined\<close> or \<^verbatim>\<open>null\<close>
  (its message is the engine's and is left out), or any other value.
\<close>

datatype thrown = Error jsstring | TypeError | Thrown jsvalue

section \<open>Configuration\<close>

text \<open>
  The parts of the configuration object that \<^verbatim>\<open>cli.js\<close> and \<^verbatim>\<open>Slack\<close> read.  An absent
  block or value is \<open>None\<close>; a configured hook is the outcome of calling it (\<open>Inl\<close> when
  it throws or its promise rejects).  \<open>'v\<close> is the opaque data of the collaborators.
\<close>

record slack_config =
  webhookURL :: "jsstring option"
  channel :: "jsstring option"

record sourceControl_config =
  defaultRange :: "obj option"

record jira_config =
  generateReleaseVersionName :: "(thrown + jsvalue) option"

record 'v config =
  sourceControl :: "sourceControl_config option"
  jira :: "jira_config option"
  slack :: "slack_config option"
  transformForSlack :: "(jsstring \<Rightarrow> 'v \<Rightarrow> thrown + jsstring) option"

section \<open>Slack: posting\<close>

definition isEnabled :: "'v config \<Rightarrow> bool" where
  "isEnabled config =
     (case slack config of
        None \<Rightarrow> False
      | Some s \<Rightarrow> (case webhookURL s of None \<Rightarrow> False | Some u \<Rightarrow> u \<noteq> []))"

text \<open>The object that \<^verbatim>\<open>postChunk\<close> serialises, and the request handed to \<^verbatim>\<open>fetch\<close>.\<close>

datatype block = Section_mrkdwn jsstring

record messageBody =
  mb_username :: jsstring
  mb_text :: jsstring
  mb_blocks :: "block list"

record request =
  req_url :: jsstring
  req_method :: jsstring
  req_body :: messageBody
  req_content_type :: jsstring

record response =
  ok :: bool
  error :: jsvalue

text \<open>
  The transport: what the \<open>n\<close>-th POST of the run (counting from 0) settles to, a
  rejection or a response (\<open>None\<close> for a falsy one).  The state threaded through the
  Slack functions is the list of the POSTs made so far, in order.
\<close>

type_synonym transport = "nat \<Rightarrow> request \<Rightarrow> thrown + response option"

datatype settled = NoValue | EmptyObject | Fetched "response option"

definition postChunk ::
  "'v config \<Rightarrow> transport \<Rightarrow> jsstring \<Rightarrow> request list \<Rightarrow> (thrown + response option) \<times> request list" where
  "postChunk config fetch body posts =
     (case slack config of
        None \<Rightarrow> (Inl TypeError, posts)
      | Some s \<Rightarrow>
          (let url = (case webhookURL s of None \<Rightarrow> js ''undefined'' | Some u \<Rightarrow> u)
           in if \<not> isEnabled config
              then (Inl (Thrown (Str (js ''The slack API is not configured.''))), posts)
              else
                (let messageBody =
                       \<lparr>mb_username = js ''Changelog notifier'',
                        mb_text = js ''Changelog published'',
                        mb_blocks = [Section_mrkdwn body]\<rparr>;
                     req = \<lparr>req_url = url, req_method = js ''POST'', req_body = messageBody,
                            req_content_type = js ''application/json''\<rparr>
                 in (fetch (length posts) req, posts @ [req]))))"

definition sendChunk ::
  "'v config \<Rightarrow> transport \<Rightarrow> jsstring \<Rightarrow> request list \<Rightarrow> (thrown + settled) \<times> request list" where
  "sendChunk config fetch txt posts =
     (case postChunk config fetch txt posts of
        (Inl e, posts') \<Rightarrow> (Inl e, posts')
      | (Inr resp, posts') \<Rightarrow>
          (case resp of
             None \<Rightarrow> (Inr (Fetched resp), posts')
           | Some r \<Rightarrow>
               if \<not> ok r then (Inl (Thrown (error r)), posts')
               else (Inr (Fetched resp), posts')))"

text \<open>
  \<^verbatim>\<open>promise.then(() => sendChunk(text))\<close>: the callback runs only once \<open>promise\<close> has
  resolved; a rejected promise passes its reason on and the callback never runs.
\<close>

definition then_sendChunk ::
  "'v config \<Rightarrow> transport \<Rightarrow> (thrown + settled) \<times> request list \<Rightarrow> jsstring
     \<Rightarrow> (thrown + settled) \<times> request list" where
  "then_sendChunk config fetch promise txt =
     (case promise of
        (Inl e, posts) \<Rightarrow> (Inl e, posts)
      | (Inr v, posts) \<Rightarrow> sendChunk config fetch txt posts)"

definition postMessage ::
  "'v config \<Rightarrow> transport \<Rightarrow> jsstring option \<Rightarrow> request list \<Rightarrow> (thrown + settled) \<times> request list" where
  "postMessage config fetch txt posts =
     (case txt of
        None \<Rightarrow> (Inl (Thrown (Str (js ''No text to send to slack.''))), posts)
      | Some t \<Rightarrow>
          if t = [] \<or> length t = 0
          then (Inl (Thrown (Str (js ''No text to send to slack.''))), posts)
          else if \<not> isEnabled config then (Inr EmptyObject, posts)
          else
            (let chunks = splitUpMessage t;
                 sendPromise = foldl (then_sendChunk config fetch) (Inr NoValue, posts) chunks
             in sendPromise))"

section \<open>cli.js: command line and range\<close>

definition dot :: jschar where
  "dot = of_char CHR ''.''"

text \<open>
  \<^verbatim>\<open>rangeStr.split(/\.{3,3}/)\<close>: the regular expression matches exactly three dots; the
  string is cut at every match, scanning from the left, the next match sought after the
  end of the previous one.
\<close>

fun parseRange :: "jsstring \<Rightarrow> jsstring list" where
  "parseRange (a # b # c # rest) =
     (if a = dot \<and> b = dot \<and> c = dot then [] # parseRange rest
      else cons_first a (parseRange (b # c # rest)))"
| "parseRange s = [s]"

text \<open>
  What the user typed, option by option.  \<open>arg_release\<close> is \<open>None\<close> without
  \<^verbatim>\<open>--release\<close>, \<open>Some None\<close> for the bare flag and \<open>Some (Some v)\<close> with a name.
\<close>

record cli_args =
  arg_config :: "jsstring option"
  arg_range :: "jsstring option"
  arg_date :: "jsstring option"
  arg_slack :: bool
  arg_release :: "jsstring option option"
  arg_operands :: "jsstring list"

text \<open>
  The \<^verbatim>\<open>program\<close> object after \<^verbatim>\<open>parse\<close>.  The commander library (a dependency, not
  part of this repository) stores the value of each option that was given in the
  property named after the option's long flag, after passing it through the option's
  processing function when one is declared, and the remaining operands in \<^verbatim>\<open>args\<close>.
  So \<^verbatim>\<open>--range\<close> is stored in \<^verbatim>\<open>program.range\<close> and \<^verbatim>\<open>--date\<close> in \<^verbatim>\<open>program.date\<close>.
\<close>

record program =
  options :: obj
  args :: "jsstring list"

definition store_option :: "string \<Rightarrow> jsvalue option \<Rightarrow> obj \<Rightarrow> obj" where
  "store_option name given ob = (case given of None \<Rightarrow> ob | Some v \<Rightarrow> set_prop ob name v)"

definition commandLineArgs :: "cli_args \<Rightarrow> program" where
  "commandLineArgs argv =
     \<lparr>options =
        store_option ''release''
          (map_option (\<lambda>r. case r of None \<Rightarrow> Bool True | Some v \<Rightarrow> Str v) (arg_release argv))
        (store_option ''slack'' (if arg_slack argv then Some (Bool True) else None)
        (store_option ''date'' (map_option (\<lambda>v. Arr (parseRange v)) (arg_date argv))
        (store_option ''range'' (map_option (\<lambda>v. Arr (parseRange v)) (arg_range argv))
        (store_option ''config'' (map_option Str (arg_config argv)) [])))),
      args = arg_operands argv\<rparr>"

text \<open>
  Line 155, the constant \<^verbatim>\<open>defaultRange\<close> of \<^verbatim>\<open>getRangeObject\<close>: the configured default
  range, or the empty object.
\<close>

definition config_defaultRange :: "'v config \<Rightarrow> obj" where
  "config_defaultRange config =
     (case sourceControl config of
        None \<Rightarrow> []
      | Some sc \<Rightarrow> (case defaultRange sc of None \<Rightarrow> [] | Some d \<Rightarrow> d))"

definition getRangeObject :: "'v config \<Rightarrow> program \<Rightarrow> thrown + obj" where
  "getRangeObject config prog =
     (let range0 = [];
          dRange = config_defaultRange config;
          program_range = get_prop (options prog) ''range'';
          program_dateRange = get_prop (options prog) ''dateRange'';
          range1 = (if has_length program_range
                    then set_prop (set_prop range0 ''from'' (js_index program_range 0))
                           ''to'' (js_index program_range 1)
                    else range0);
          range2 = (if has_length program_dateRange
                    then (let r = set_prop range1 ''after'' (js_index program_dateRange 0)
                          in if js_length program_dateRange > 1
                             then set_prop r ''before'' (js_index program_dateRange 1)
                             else r)
                    else range1);
          range3 = (if length (object_keys range2) = 0 \<and> length (object_keys dRange) \<noteq> 0
                    then object_assign range2 dRange
                    else range2)
      in if length (object_keys range3) = 0
         then Inl (Error (js ''No range defined for the changelog.''))
         else Inr range3)"

section \<open>cli.js: the run\<close>








section \<open>Vocabulary of the properties\<close>

text \<open>The request that \<^verbatim>\<open>postChunk\<close> hands to \<^verbatim>\<open>fetch\<close> for a chunk when Slack is enabled.\<close>

definition slack_request :: "'v config \<Rightarrow> jsstring \<Rightarrow> request" where
  "slack_request config body =
     \<lparr>req_url = (case slack config of
                    None \<Rightarrow> js ''undefined''
                  | Some s \<Rightarrow> (case webhookURL s of None \<Rightarrow> js ''undefined'' | Some u \<Rightarrow> u)),
      req_method = js ''POST'',
      req_body = \<lparr>mb_username = js ''Changelog notifier'',
                  mb_text = js ''Changelog published'',
                  mb_blocks = [Section_mrkdwn body]\<rparr>,
      req_content_type = js ''application/json''\<rparr>"

text \<open>
  A POST is accepted when \<^verbatim>\<open>fetch\<close> resolves and \<^verbatim>\<open>sendChunk\<close> does not throw on the
  response.
\<close>

fun accepted :: "thrown + response option \<Rightarrow> bool" where
  "accepted (Inl e) = False"
| "accepted (Inr None) = True"
| "accepted (Inr (Some r)) = ok r"

text \<open>Whether three dots in a row occur in a string.\<close>

fun has_triple_dot :: "jsstring \<Rightarrow> bool" where
  "has_triple_dot (a # b # c # rest) =
     ((a = dot \<and> b = dot \<and> c = dot) \<or> has_triple_dot (b # c # rest))"
| "has_triple_dot s = False"

section \<open>Properties of splitUpMessage\<close>

subsection \<open>Lines, trimming and the hard split\<close>

lemma split_lines_no_newline: "newline \<notin> set xs \<Longrightarrow> split_lines xs = [xs]"
  by (induction xs) auto

lemma split_lines_append:
  "newline \<notin> set xs \<Longrightarrow> split_lines (xs @ newline # ys) = xs # split_lines ys"
  by (induction xs) auto

lemma split_two_lines:
  assumes "newline \<notin> set l1" "newline \<notin> set l2"
  shows "split_lines (l1 @ [newline] @ l2) = [l1, l2]"
  using assms by (simp add: split_lines_append split_lines_no_newline)

lemma split_three_lines:
  assumes "newline \<notin> set l1" "newline \<notin> set l2" "newline \<notin> set l3"
  shows "split_lines (l1 @ [newline] @ l2 @ [newline] @ l3) = [l1, l2, l3]"
  using assms by (simp add: split_lines_append split_lines_no_newline)

lemma limit_value: "limit = 3997"
  by (simp add: limit_def MSG_SIZE_LIMIT_def continuation_def js_def)

lemma length_continuation: "length continuation = 3"
  by (simp add: continuation_def js_def)

lemma trim_Nil: "trim [] = []"
  by (simp add: trim_def)

lemma length_trim_le: "length (trim s) \<le> length s"
proof -
  have "length (trim s) \<le> length (dropWhile is_whitespace s)"
    unfolding trim_def by (metis length_dropWhile_le length_rev)
  also have "\<dots> \<le> length s"
    by (rule length_dropWhile_le)
  finally show ?thesis .
qed

lemma trim_id:
  assumes "s \<noteq> []" "\<not> is_whitespace (hd s)" "\<not> is_whitespace (last s)"
  shows "trim s = s"
proof -
  from assms have front: "dropWhile is_whitespace s = s"
    by (cases s) auto
  from assms have "rev s \<noteq> []" "\<not> is_whitespace (hd (rev s))"
    by (simp_all add: hd_rev)
  then have "dropWhile is_whitespace (rev s) = rev s"
    by (cases "rev s") auto
  with front show ?thesis
    by (simp add: trim_def)
qed

lemma trim_replicate:
  assumes "\<not> is_whitespace c"
  shows "trim (replicate n c) = replicate n c"
  using assms by (simp add: trim_def)

lemma trim_continuation_replicate:
  assumes "\<not> is_whitespace c" "0 < n"
  shows "trim (continuation @ replicate n c) = continuation @ replicate n c"
  by (rule trim_id) (use assms in \<open>simp_all add: continuation_def js_def is_whitespace_def\<close>)

lemma hardSplit_Nil: "hardSplit [] ms = ms"
  by (subst hardSplit.simps) simp

subsection \<open>Texts within the limit\<close>

text \<open>
  C9. A text of at most \<open>MSG_SIZE_LIMIT\<close> = 4000 code units comes back as the single
  chunk \<open>[t]\<close>, unchanged; the witness is a text of exactly 4000 characters.
\<close>

theorem splitUpMessage_within_limit:
  "length t \<le> MSG_SIZE_LIMIT \<Longrightarrow> splitUpMessage t = [t]"
  by (simp add: splitUpMessage_def)

theorem splitUpMessage_within_limit_witness:
  "length (js (replicate 4000 CHR ''a'')) \<le> MSG_SIZE_LIMIT \<and>
   splitUpMessage (js (replicate 4000 CHR ''a'')) = [js (replicate 4000 CHR ''a'')]"
proof -
  have h: "length (js (replicate 4000 CHR ''a'')) \<le> MSG_SIZE_LIMIT"
    by (simp add: js_def MSG_SIZE_LIMIT_def)
  from h splitUpMessage_within_limit [OF h] show ?thesis
    by simp
qed

subsection \<open>A single line of 5000 characters\<close>

lemma hardSplit_5000:
  assumes "\<not> is_whitespace c"
  shows "hardSplit (replicate 5000 c) ms =
      ms @ [replicate 3997 c @ continuation, continuation @ replicate 1003 c]"
proof -
  have second: "hardSplit (continuation @ replicate 1003 c) ms'
      = ms' @ [continuation @ replicate 1003 c]" for ms'
    by (subst hardSplit.simps)
      (simp add: limit_value length_continuation Let_def trim_Nil hardSplit_Nil
        trim_continuation_replicate [OF assms])
  show ?thesis
    by (subst hardSplit.simps)
      (simp add: limit_value Let_def trim_replicate [OF assms] second)
qed

lemma splitUpMessage_5000:
  assumes "\<not> is_whitespace c" "c \<noteq> newline"
  shows "splitUpMessage (replicate 5000 c) =
     [replicate 3997 c @ continuation, continuation @ replicate 1003 c]"
proof -
  have lines: "split_lines (replicate 5000 c) = [replicate 5000 c]"
    by (rule split_lines_no_newline) (use assms in auto)
  show ?thesis
    by (simp add: splitUpMessage_def MSG_SIZE_LIMIT_def lines forEach_line_def
        hardSplit_5000 [OF assms(1)] Let_def length_continuation)
qed

text \<open>
  C8, as the code has it.  For 5000 times \<open>a\<close> the result is exactly two chunks: the first
  is the first 4000 - 3 = 3997 characters followed by the marker \<open>...\<close>, 4000 code units
  in all; the second is the marker followed by the remaining 1003 characters.
\<close>

theorem splitUpMessage_5000_a:
  "splitUpMessage (js (replicate 5000 CHR ''a'')) =
     [js (replicate 3997 CHR ''a'') @ js ''...'', js ''...'' @ js (replicate 1003 CHR ''a'')] \<and>
   length (js (replicate 3997 CHR ''a'') @ js ''...'') = MSG_SIZE_LIMIT"
  using splitUpMessage_5000 [of "of_char CHR ''a''"]
  by (simp add: js_def continuation_def is_whitespace_def newline_def MSG_SIZE_LIMIT_def)

text \<open>
  C8, as the claim words it, fails: the first chunk does not have length 4000 - 3; the
  marker is added to a slice of that length.
\<close>

theorem splitUpMessage_5000_a_first_length_counterexample:
  "length (hd (splitUpMessage (js (replicate 5000 CHR ''a'')))) \<noteq> MSG_SIZE_LIMIT - 3"
  using splitUpMessage_5000 [of "of_char CHR ''a''"]
  by (simp add: js_def continuation_def is_whitespace_def newline_def MSG_SIZE_LIMIT_def)

subsection \<open>A long line after a block that holds content\<close>

lemma splitUpMessage_seeded_long_line:
  assumes "c \<noteq> newline" "d \<noteq> newline"
  shows "splitUpMessage ([c] @ [newline] @ replicate 4001 d) = [[c] @ [newline], replicate 4001 d]"
proof -
  have lines: "split_lines ([c] @ [newline] @ replicate 4001 d) = [[c], replicate 4001 d]"
    by (rule split_two_lines) (use assms in simp_all)
  have "length ([c] @ [newline] @ replicate 4001 d) = 4003"
    by simp
  then show ?thesis
    unfolding splitUpMessage_def lines
    by (simp add: MSG_SIZE_LIMIT_def forEach_line_def Let_def)
qed

text \<open>
  C1.  The text \<open>a\<close>, newline, 4001 times \<open>b\<close>: the block holds \<open>a\<close> and its newline when
  the long line arrives, so the block is flushed and the new block is seeded with the
  whole line, which is pushed as it is at the end: a chunk of 4001 code units.
\<close>

theorem splitUpMessage_chunk_over_limit:
  "splitUpMessage (js ''a'' @ [newline] @ js (replicate 4001 CHR ''b'')) =
      [js ''a'' @ [newline], js (replicate 4001 CHR ''b'')] \<and>
   length (js (replicate 4001 CHR ''b'')) > MSG_SIZE_LIMIT"
  using splitUpMessage_seeded_long_line [of "of_char CHR ''a''" "of_char CHR ''b''"]
  by (simp add: js_def newline_def MSG_SIZE_LIMIT_def)

subsection \<open>Lines glued together\<close>

lemma splitUpMessage_glued_lines:
  assumes "a \<noteq> newline" "b \<noteq> newline" "c \<noteq> newline"
  shows "splitUpMessage (replicate 3000 a @ [newline] @ replicate 3000 b @ [newline] @ [c]) =
      [replicate 3000 a @ [newline], replicate 3000 b @ [c] @ [newline]]"
proof -
  have lines: "split_lines (replicate 3000 a @ [newline] @ replicate 3000 b @ [newline] @ [c])
      = [replicate 3000 a, replicate 3000 b, [c]]"
    by (rule split_three_lines) (use assms in simp_all)
  show ?thesis
    by (simp add: splitUpMessage_def MSG_SIZE_LIMIT_def lines [simplified] forEach_line_def Let_def)
qed

text \<open>
  C2.  Three lines, 3000 times \<open>a\<close>, 3000 times \<open>b\<close> and \<open>c\<close>, none longer than the
  limit, so no line is hard split and no marker is inserted.  The second block is seeded
  with the second line without its newline, so the third line is glued to it, and a
  newline the text does not have is appended: the chunks do not concatenate to the text.
\<close>

theorem splitUpMessage_concat_differs:
  "list_all (\<lambda>line. length line \<le> MSG_SIZE_LIMIT)
     (split_lines (js (replicate 3000 CHR ''a'') @ [newline] @ js (replicate 3000 CHR ''b'')
        @ [newline] @ js ''c'')) \<and>
   splitUpMessage (js (replicate 3000 CHR ''a'') @ [newline] @ js (replicate 3000 CHR ''b'')
        @ [newline] @ js ''c'') =
      [js (replicate 3000 CHR ''a'') @ [newline],
       js (replicate 3000 CHR ''b'') @ js ''c'' @ [newline]] \<and>
   concat (splitUpMessage (js (replicate 3000 CHR ''a'') @ [newline]
        @ js (replicate 3000 CHR ''b'') @ [newline] @ js ''c''))
     \<noteq> js (replicate 3000 CHR ''a'') @ [newline] @ js (replicate 3000 CHR ''b'')
        @ [newline] @ js ''c''"
  using splitUpMessage_glued_lines [of "of_char CHR ''a''" "of_char CHR ''b''" "of_char CHR ''c''"]
    split_three_lines [of "replicate 3000 (of_char CHR ''a'')"
      "replicate 3000 (of_char CHR ''b'')" "[of_char CHR ''c'']"]
  by (simp add: js_def newline_def MSG_SIZE_LIMIT_def)

subsection \<open>Where the bound on the chunks does hold\<close>

text \<open>
  Every chunk that the hard split pushes fits the limit, and so does every chunk of a
  text in which no line is longer than the limit, or of a text that is a single line.
\<close>

lemma hardSplit_bound:
  "list_all (\<lambda>m. length m \<le> MSG_SIZE_LIMIT) ms \<Longrightarrow>
   list_all (\<lambda>m. length m \<le> MSG_SIZE_LIMIT) (hardSplit line ms)"
proof (induction line ms rule: hardSplit.induct)
  case (1 line messages)
  have slice: "length (trim (take limit line)) \<le> 3997"
    using length_trim_le [of "take limit line"] by (simp add: limit_value)
  have marked: "length (trim (take limit line) @ continuation) \<le> MSG_SIZE_LIMIT"
    using slice by (simp add: length_continuation MSG_SIZE_LIMIT_def)
  have plain: "length (trim (take limit line)) \<le> MSG_SIZE_LIMIT"
    using slice by (simp add: MSG_SIZE_LIMIT_def)
  show ?case
  proof (cases "0 < length line")
    case False
    then show ?thesis
      using "1.prems" by (subst hardSplit.simps) simp
  next
    case True
    show ?thesis
    proof (cases "length (trim (drop limit line)) \<noteq> 0")
      case rest: True
      have "list_all (\<lambda>m. length m \<le> MSG_SIZE_LIMIT)
          (hardSplit (continuation @ trim (drop limit line))
             (messages @ [trim (take limit line) @ continuation]))"
        using "1.IH"(1) [OF True refl refl rest] "1.prems" marked by simp
      then show ?thesis
        using True rest by (subst hardSplit.simps) (simp add: Let_def)
    next
      case none: False
      have "list_all (\<lambda>m. length m \<le> MSG_SIZE_LIMIT)
          (hardSplit (trim (drop limit line)) (messages @ [trim (take limit line)]))"
        using "1.IH"(2) [OF True refl refl none] "1.prems" plain by simp
      then show ?thesis
        using True none by (subst hardSplit.simps) (simp add: Let_def)
    qed
  qed
qed

lemma forEach_line_bound:
  assumes "length (fst st) \<le> MSG_SIZE_LIMIT"
    and "list_all (\<lambda>m. length m \<le> MSG_SIZE_LIMIT) (snd st)"
    and "length line \<le> MSG_SIZE_LIMIT"
  shows "length (fst (forEach_line st line)) \<le> MSG_SIZE_LIMIT \<and>
         list_all (\<lambda>m. length m \<le> MSG_SIZE_LIMIT) (snd (forEach_line st line))"
  using assms hardSplit_bound [of "snd st" line]
  by (auto simp: forEach_line_def Let_def)

lemma foldl_forEach_line_bound:
  assumes "length (fst st) \<le> MSG_SIZE_LIMIT"
    and "list_all (\<lambda>m. length m \<le> MSG_SIZE_LIMIT) (snd st)"
    and "list_all (\<lambda>line. length line \<le> MSG_SIZE_LIMIT) lines"
  shows "length (fst (foldl forEach_line st lines)) \<le> MSG_SIZE_LIMIT \<and>
         list_all (\<lambda>m. length m \<le> MSG_SIZE_LIMIT) (snd (foldl forEach_line st lines))"
  using assms
proof (induction lines arbitrary: st)
  case Nil
  then show ?case by simp
next
  case (Cons line lines)
  from Cons.prems have "length line \<le> MSG_SIZE_LIMIT"
    by simp
  from forEach_line_bound [OF Cons.prems(1,2) this] Cons.prems(3)
  show ?case
    using Cons.IH [of "forEach_line st line"] by simp
qed

lemma splitUpMessage_bound_short_lines:
  assumes "list_all (\<lambda>line. length line \<le> MSG_SIZE_LIMIT) (split_lines t)"
  shows "list_all (\<lambda>m. length m \<le> MSG_SIZE_LIMIT) (splitUpMessage t)"
  using foldl_forEach_line_bound [of "([], [])" "split_lines t"] assms
  by (simp add: splitUpMessage_def Let_def)

lemma splitUpMessage_single_line_bound:
  assumes "newline \<notin> set t"
  shows "list_all (\<lambda>m. length m \<le> MSG_SIZE_LIMIT) (splitUpMessage t)"
  using hardSplit_bound [of "[]" t] assms
  by (simp add: splitUpMessage_def Let_def split_lines_no_newline forEach_line_def)

section \<open>Properties of postMessage\<close>

lemma postChunk_enabled:
  assumes "isEnabled config"
  shows "postChunk config fetch body posts =
     (fetch (length posts) (slack_request config body), posts @ [slack_request config body])"
  using assms
  by (auto simp: postChunk_def isEnabled_def slack_request_def Let_def split: option.splits)

lemma sendChunk_enabled_posts:
  assumes "isEnabled config"
  shows "snd (sendChunk config fetch c posts) = posts @ [slack_request config c]"
  by (auto simp: sendChunk_def postChunk_enabled [OF assms] split: sum.splits option.splits)

lemma sendChunk_enabled_result:
  assumes "isEnabled config"
  shows "isl (fst (sendChunk config fetch c posts))
     \<longleftrightarrow> \<not> accepted (fetch (length posts) (slack_request config c))"
  by (auto simp: sendChunk_def postChunk_enabled [OF assms] split: sum.splits option.splits)

lemma then_sendChunk_rejected:
  "foldl (then_sendChunk config fetch) (Inl e, posts) cs = (Inl e, posts)"
  by (induction cs) (simp_all add: then_sendChunk_def)

lemma sendPromise_prefix:
  assumes "isEnabled config" "k \<le> length cs"
    "\<forall>i<k. accepted (fetch (length posts + i) (slack_request config (cs ! i)))"
    "k < length cs \<longrightarrow> \<not> accepted (fetch (length posts + k) (slack_request config (cs ! k)))"
  shows "snd (foldl (then_sendChunk config fetch) (Inr v, posts) cs)
           = posts @ map (slack_request config) (take (Suc k) cs) \<and>
         (isl (fst (foldl (then_sendChunk config fetch) (Inr v, posts) cs)) \<longleftrightarrow> k < length cs)"
  using assms(2-)
proof (induction cs arbitrary: k posts v)
  case Nil
  then show ?case by simp
next
  case (Cons c cs)
  obtain r posts' where sc: "sendChunk config fetch c posts = (r, posts')"
    by (cases "sendChunk config fetch c posts")
  have posts': "posts' = posts @ [slack_request config c]"
    using sendChunk_enabled_posts [OF assms(1), of fetch c posts] sc by simp
  have r: "isl r \<longleftrightarrow> \<not> accepted (fetch (length posts) (slack_request config c))"
    using sendChunk_enabled_result [OF assms(1), of fetch c posts] sc by simp
  have step: "then_sendChunk config fetch (Inr v, posts) c = (r, posts')"
    by (simp add: then_sendChunk_def sc)
  show ?case
  proof (cases k)
    case 0
    with Cons.prems have "\<not> accepted (fetch (length posts) (slack_request config c))"
      by simp
    with r obtain e where "r = Inl e"
      by (cases r) auto
    then show ?thesis
      by (simp add: step then_sendChunk_rejected posts' 0)
  next
    case (Suc k')
    with Cons.prems have "accepted (fetch (length posts) (slack_request config c))"
      by auto
    with r obtain v' where rv: "r = Inr v'"
      by (cases r) auto
    have a: "k' \<le> length cs"
      using Cons.prems Suc by simp
    have b: "\<forall>i<k'. accepted (fetch (length posts' + i) (slack_request config (cs ! i)))"
    proof (intro allI impI)
      fix i assume "i < k'"
      then have "accepted (fetch (length posts + Suc i) (slack_request config ((c # cs) ! Suc i)))"
        using Cons.prems(2) Suc by blast
      then show "accepted (fetch (length posts' + i) (slack_request config (cs ! i)))"
        by (simp add: posts')
    qed
    have c: "k' < length cs \<longrightarrow>
        \<not> accepted (fetch (length posts' + k') (slack_request config (cs ! k')))"
      using Cons.prems(3) Suc by (simp add: posts')
    from Cons.IH [OF a b c, of v'] show ?thesis
      by (simp add: step rv posts' Suc)
  qed
qed

lemma postMessage_enabled:
  assumes "isEnabled config" "t \<noteq> []"
  shows "postMessage config fetch (Some t) posts =
     foldl (then_sendChunk config fetch) (Inr NoValue, posts) (splitUpMessage t)"
  using assms by (simp add: postMessage_def)

lemma splitUpMessage_three_chunks:
  assumes "a \<noteq> newline" "b \<noteq> newline" "c \<noteq> newline"
  shows "splitUpMessage (replicate 3000 a @ [newline] @ replicate 3000 b @ [newline] @ replicate 3000 c) =
      [replicate 3000 a @ [newline], replicate 3000 b, replicate 3000 c]"
proof -
  have lines: "split_lines (replicate 3000 a @ [newline] @ replicate 3000 b @ [newline] @ replicate 3000 c)
      = [replicate 3000 a, replicate 3000 b, replicate 3000 c]"
    by (rule split_three_lines) (use assms in simp_all)
  show ?thesis
    by (simp add: splitUpMessage_def MSG_SIZE_LIMIT_def lines [simplified] forEach_line_def Let_def)
qed

text \<open>
  C3.  With Slack enabled, the POSTs of \<open>postMessage\<close> are made one after the other in
  the order of the chunks, each only once the one before was accepted, and the first
  POST that is not accepted is the last one: if the first \<open>k\<close> attempts are accepted and
  attempt \<open>k\<close> (when there is one) is not, exactly the chunks \<open>0..k\<close> are posted, none of
  the later ones is, and the promise is rejected exactly when some attempt failed.  The
  witness is a message of three chunks whose second POST is rejected: two POSTs are
  made, the third chunk is never sent.
\<close>

theorem postMessage_sequential:
  assumes "isEnabled config" and "t \<noteq> []" and "splitUpMessage t = chunks"
    and "k \<le> length chunks"
    and "\<forall>i<k. accepted (fetch i (slack_request config (chunks ! i)))"
    and "k < length chunks \<longrightarrow> \<not> accepted (fetch k (slack_request config (chunks ! k)))"
  shows "snd (postMessage config fetch (Some t) [])
           = map (slack_request config) (take (Suc k) chunks) \<and>
         (isl (fst (postMessage config fetch (Some t) [])) \<longleftrightarrow> k < length chunks)"
  using sendPromise_prefix [of config k chunks fetch "[]" NoValue] assms
  by (simp add: postMessage_enabled)

theorem postMessage_sequential_witness:
  "isEnabled (\<lparr>sourceControl = None, jira = None,
       slack = Some \<lparr>webhookURL = Some (js ''https://hooks.test/T0''), channel = Some (js ''dev'')\<rparr>,
       transformForSlack = None\<rparr> :: unit config) \<and>
   splitUpMessage (js (replicate 3000 CHR ''a'') @ [newline] @ js (replicate 3000 CHR ''b'')
       @ [newline] @ js (replicate 3000 CHR ''c''))
     = [js (replicate 3000 CHR ''a'') @ [newline], js (replicate 3000 CHR ''b''),
        js (replicate 3000 CHR ''c'')] \<and>
   snd (postMessage
      (\<lparr>sourceControl = None, jira = None,
        slack = Some \<lparr>webhookURL = Some (js ''https://hooks.test/T0''), channel = Some (js ''dev'')\<rparr>,
        transformForSlack = None\<rparr> :: unit config)
      (\<lambda>n req. if n = 1 then Inl (Error (js ''socket hang up''))
                else Inr (Some \<lparr>ok = True, error = Undefined\<rparr>))
      (Some (js (replicate 3000 CHR ''a'') @ [newline] @ js (replicate 3000 CHR ''b'')
         @ [newline] @ js (replicate 3000 CHR ''c''))) [])
     = [slack_request
          (\<lparr>sourceControl = None, jira = None,
            slack = Some \<lparr>webhookURL = Some (js ''https://hooks.test/T0''), channel = Some (js ''dev'')\<rparr>,
            transformForSlack = None\<rparr> :: unit config)
          (js (replicate 3000 CHR ''a'') @ [newline]),
        slack_request
          (\<lparr>sourceControl = None, jira = None,
            slack = Some \<lparr>webhookURL = Some (js ''https://hooks.test/T0''), channel = Some (js ''dev'')\<rparr>,
            transformForSlack = None\<rparr> :: unit config)
          (js (replicate 3000 CHR ''b''))] \<and>
   isl (fst (postMessage
      (\<lparr>sourceControl = None, jira = None,
        slack = Some \<lparr>webhookURL = Some (js ''https://hooks.test/T0''), channel = Some (js ''dev'')\<rparr>,
        transformForSlack = None\<rparr> :: unit config)
      (\<lambda>n req. if n = 1 then Inl (Error (js ''socket hang up''))
                else Inr (Some \<lparr>ok = True, error = Undefined\<rparr>))
      (Some (js (replicate 3000 CHR ''a'') @ [newline] @ js (replicate 3000 CHR ''b'')
         @ [newline] @ js (replicate 3000 CHR ''c''))) []))"
proof -
  let ?cfg = "\<lparr>sourceControl = None, jira = None,
       slack = Some \<lparr>webhookURL = Some (js ''https://hooks.test/T0''), channel = Some (js ''dev'')\<rparr>,
       transformForSlack = None\<rparr> :: unit config"
  let ?fetch = "\<lambda>(n::nat) (req::request). if n = 1 then Inl (Error (js ''socket hang up''))
                else Inr (Some \<lparr>ok = True, error = Undefined\<rparr>)"
  let ?t = "js (replicate 3000 CHR ''a'') @ [newline] @ js (replicate 3000 CHR ''b'')
       @ [newline] @ js (replicate 3000 CHR ''c'')"
  let ?chunks = "[js (replicate 3000 CHR ''a'') @ [newline], js (replicate 3000 CHR ''b''),
        js (replicate 3000 CHR ''c'')]"
  have enabled: "isEnabled ?cfg"
    by (simp add: isEnabled_def js_def)
  have nonempty: "?t \<noteq> []"
    by simp
  have chunks: "splitUpMessage ?t = ?chunks"
    using splitUpMessage_three_chunks [of "of_char CHR ''a''" "of_char CHR ''b''" "of_char CHR ''c''"]
    by (simp add: js_def newline_def)
  have k: "(1::nat) \<le> length ?chunks"
    by simp
  have before: "\<forall>i<1. accepted (?fetch i (slack_request ?cfg (?chunks ! i)))"
    by simp
  have at: "1 < length ?chunks \<longrightarrow> \<not> accepted (?fetch 1 (slack_request ?cfg (?chunks ! 1)))"
    by simp
  from postMessage_sequential [OF enabled nonempty chunks k before at] enabled chunks
  show ?thesis
    by simp
qed

text \<open>
  C10.  \<open>postMessage\<close> rejects with \<open>No text to send to slack.\<close> when the text is absent
  or empty, whatever the configuration; for a text that is not empty it resolves with the
  empty object when Slack is not enabled.  In both cases no POST is made: the list of
  POSTs is returned as it was.
\<close>

theorem postMessage_guards:
  "(txt = None \<or> txt = Some [] \<longrightarrow>
      postMessage config fetch txt posts
        = (Inl (Thrown (Str (js ''No text to send to slack.''))), posts)) \<and>
   (txt = Some t \<and> t \<noteq> [] \<and> \<not> isEnabled config \<longrightarrow>
      postMessage config fetch txt posts = (Inr EmptyObject, posts))"
  by (auto simp: postMessage_def)

theorem postMessage_guards_witness:
  "\<not> isEnabled (\<lparr>sourceControl = None, jira = None, slack = None, transformForSlack = None\<rparr> :: unit config) \<and>
   postMessage (\<lparr>sourceControl = None, jira = None, slack = None, transformForSlack = None\<rparr> :: unit config)
      (\<lambda>n req. Inr None) None []
     = (Inl (Thrown (Str (js ''No text to send to slack.''))), []) \<and>
   postMessage (\<lparr>sourceControl = None, jira = None,
        slack = Some \<lparr>webhookURL = Some (js ''https://hooks.test/T0''), channel = None\<rparr>,
        transformForSlack = None\<rparr> :: unit config)
      (\<lambda>n req. Inr None) (Some []) []
     = (Inl (Thrown (Str (js ''No text to send to slack.''))), []) \<and>
   postMessage (\<lparr>sourceControl = None, jira = None, slack = None, transformForSlack = None\<rparr> :: unit config)
      (\<lambda>n req. Inr None) (Some (js ''changes'')) []
     = (Inr EmptyObject, [])"
proof -
  let ?off = "\<lparr>sourceControl = None, jira = None, slack = None, transformForSlack = None\<rparr> :: unit config"
  let ?on = "\<lparr>sourceControl = None, jira = None,
        slack = Some \<lparr>webhookURL = Some (js ''https://hooks.test/T0''), channel = None\<rparr>,
        transformForSlack = None\<rparr> :: unit config"
  have off: "\<not> isEnabled ?off"
    by (simp add: isEnabled_def)
  have ne: "js ''changes'' \<noteq> []"
    by (simp add: js_def)
  from postMessage_guards [of None ?off "\<lambda>n req. Inr None" "[]"]
    postMessage_guards [of "Some []" ?on "\<lambda>n req. Inr None" "[]"]
    postMessage_guards [of "Some (js ''changes'')" ?off "\<lambda>n req. Inr None" "[]" "js ''changes''"]
    off ne
  show ?thesis
    by simp
qed

section \<open>Properties of the range\<close>

lemma get_prop_Nil: "get_prop [] k = Undefined"
  by (simp add: get_prop_def)

lemma get_prop_set_prop:
  "get_prop (set_prop ob k v) k' = (if k' = k then v else get_prop ob k')"
  by (induction ob) (auto simp: get_prop_def)

lemma get_prop_store_option:
  "get_prop (store_option k given ob) k' =
     (case given of None \<Rightarrow> get_prop ob k' | Some v \<Rightarrow> if k' = k then v else get_prop ob k')"
  by (simp add: store_option_def get_prop_set_prop split: option.splits)

lemma program_range:
  "get_prop (options (commandLineArgs argv)) ''range'' =
     (case arg_range argv of None \<Rightarrow> Undefined | Some v \<Rightarrow> Arr (parseRange v))"
  by (simp add: commandLineArgs_def get_prop_store_option get_prop_Nil split: option.splits)

lemma program_dateRange:
  "get_prop (options (commandLineArgs argv)) ''dateRange'' = Undefined"
  by (simp add: commandLineArgs_def get_prop_store_option get_prop_Nil split: option.splits)

lemma program_date:
  "get_prop (options (commandLineArgs argv)) ''date'' =
     (case arg_date argv of None \<Rightarrow> Undefined | Some v \<Rightarrow> Arr (parseRange v))"
  by (simp add: commandLineArgs_def get_prop_store_option get_prop_Nil split: option.splits)


lemma cons_first_not_Nil: "cons_first c ps \<noteq> []"
  by (cases ps) simp_all

lemma parseRange_not_Nil: "parseRange s \<noteq> []"
  by (induction s rule: parseRange.induct) (simp_all add: cons_first_not_Nil)

lemma parseRange_no_triple_dot: "\<not> has_triple_dot s \<Longrightarrow> parseRange s = [s]"
  by (induction s rule: parseRange.induct) auto

lemma parseRange_separator:
  "\<not> has_triple_dot (a @ [dot, dot]) \<Longrightarrow>
     parseRange (a @ dot # dot # dot # b) = a # parseRange b"
proof (induction a)
  case Nil
  then show ?case by simp
next
  case (Cons x a)
  show ?case
  proof (cases a)
    case Nil
    with Cons show ?thesis by auto
  next
    case (Cons y a')
    note a = this
    show ?thesis
    proof (cases a')
      case Nil
      with a Cons.prems Cons.IH show ?thesis by auto
    next
      case (Cons z a'')
      with a Cons.prems Cons.IH show ?thesis by auto
    qed
  qed
qed

lemma set_prop_not_Nil: "set_prop ob k v \<noteq> []"
  by (cases ob) simp_all

lemma object_assign_not_Nil: "target \<noteq> [] \<or> source \<noteq> [] \<Longrightarrow> object_assign target source \<noteq> []"
  unfolding object_assign_def
proof (induction source arbitrary: target)
  case Nil
  then show ?case by simp
next
  case (Cons p source)
  have "set_prop target (fst p) (snd p) \<noteq> []"
    by (rule set_prop_not_Nil)
  then show ?case
    using Cons.IH [of "set_prop target (fst p) (snd p)"] by simp
qed

text \<open>
  C5.  \<open>getRangeObject\<close> throws \<open>No range defined for the changelog.\<close> exactly when
  \<^verbatim>\<open>program.range\<close> and \<^verbatim>\<open>program.dateRange\<close> hold no token and the configured default range
  has no key; in every other case it returns a range with at least one key.
\<close>

theorem getRangeObject_throws_iff:
  "(if \<not> has_length (get_prop (options prog) ''range'') \<and>
       \<not> has_length (get_prop (options prog) ''dateRange'') \<and>
       object_keys (config_defaultRange config) = []
    then getRangeObject config prog = Inl (Error (js ''No range defined for the changelog.''))
    else (\<exists>r. getRangeObject config prog = Inr r \<and> object_keys r \<noteq> []))"
  by (auto simp: getRangeObject_def Let_def object_keys_def set_prop_not_Nil
      object_assign_not_Nil)

theorem getRangeObject_throws_iff_witness:
  "getRangeObject (\<lparr>sourceControl = None, jira = None, slack = None, transformForSlack = None\<rparr> :: unit config)
     \<lparr>options = [], args = []\<rparr>
     = Inl (Error (js ''No range defined for the changelog.'')) \<and>
   (\<exists>r. getRangeObject (\<lparr>sourceControl = None, jira = None, slack = None, transformForSlack = None\<rparr> :: unit config)
     \<lparr>options = [(''range'', Arr [js ''abc'', js ''def''])], args = []\<rparr> = Inr r \<and> object_keys r \<noteq> [])"
  using getRangeObject_throws_iff [of "\<lparr>options = [], args = []\<rparr>"
      "\<lparr>sourceControl = None, jira = None, slack = None, transformForSlack = None\<rparr> :: unit config"]
    getRangeObject_throws_iff [of "\<lparr>options = [(''range'', Arr [js ''abc'', js ''def''])], args = []\<rparr>"
      "\<lparr>sourceControl = None, jira = None, slack = None, transformForSlack = None\<rparr> :: unit config"]
  by (simp add: get_prop_def has_length_def config_defaultRange_def object_keys_def)

text \<open>
  C7, as the code has it.  The range string is cut at each run of exactly three dots.
  Whatever the string \<open>s\<close> given with \<^verbatim>\<open>--range\<close> and whatever the configuration, there
  is a first token, \<open>from\<close> is the first token and \<open>to\<close> is the second one, or
  \<^verbatim>\<open>undefined\<close> when there is none; tokens after the second are not used.  For
  \<open>s = a...b\<close>, where \<open>a\<close> does not end in a dot and neither \<open>a\<close> nor \<open>b\<close> has three dots in
  a row, the tokens are exactly \<open>a\<close> and \<open>b\<close> and the range is \<open>{from: a, to: b}\<close>.  The
  witness is \<open>abc...def\<close>, and \<open>a...b...c\<close> for a string of three tokens.
\<close>

theorem getRangeObject_explicit_range:
  assumes "arg_range argv = Some s"
  shows "(\<exists>first others.
            parseRange s = first # others \<and>
            getRangeObject config (commandLineArgs argv) =
              Inr [(''from'', Str first),
                   (''to'', (case others of [] \<Rightarrow> Undefined | second # later \<Rightarrow> Str second))]) \<and>
         (s = a @ js ''...'' @ b \<and> \<not> has_triple_dot (a @ js ''..'') \<and> \<not> has_triple_dot b \<longrightarrow>
            parseRange s = [a, b] \<and>
            getRangeObject config (commandLineArgs argv) = Inr [(''from'', Str a), (''to'', Str b)])"
proof -
  obtain first others where tokens: "parseRange s = first # others"
    using parseRange_not_Nil [of s] by (cases "parseRange s") auto
  have range_of: "getRangeObject config (commandLineArgs argv) =
      Inr [(''from'', Str first),
           (''to'', (case others of [] \<Rightarrow> Undefined | second # later \<Rightarrow> Str second))]"
    by (cases others)
      (simp_all add: getRangeObject_def program_range program_dateRange assms tokens
        has_length_def object_keys_def Let_def)
  have dots: "js ''...'' = [dot, dot, dot]" "js ''..'' = [dot, dot]"
    by (simp_all add: js_def dot_def)
  have two: "parseRange (a @ js ''...'' @ b) = [a, b]"
    if "\<not> has_triple_dot (a @ js ''..'')" "\<not> has_triple_dot b"
    using that by (simp add: dots parseRange_separator parseRange_no_triple_dot)
  show ?thesis
  proof (intro conjI impI)
    show "\<exists>first others.
            parseRange s = first # others \<and>
            getRangeObject config (commandLineArgs argv) =
              Inr [(''from'', Str first),
                   (''to'', (case others of [] \<Rightarrow> Undefined | second # later \<Rightarrow> Str second))]"
      using tokens range_of by blast
  next
    assume h: "s = a @ js ''...'' @ b \<and> \<not> has_triple_dot (a @ js ''..'') \<and> \<not> has_triple_dot b"
    then show "parseRange s = [a, b]"
      using two by simp
  next
    assume h: "s = a @ js ''...'' @ b \<and> \<not> has_triple_dot (a @ js ''..'') \<and> \<not> has_triple_dot b"
    then have "parseRange s = [a, b]"
      using two by simp
    with tokens have "first = a" "others = [b]"
      by simp_all
    with range_of
    show "getRangeObject config (commandLineArgs argv) = Inr [(''from'', Str a), (''to'', Str b)]"
      by simp
  qed
qed

theorem getRangeObject_explicit_range_witness:
  "parseRange (js ''abc'' @ js ''...'' @ js ''def'') = [js ''abc'', js ''def''] \<and>
   getRangeObject (\<lparr>sourceControl = None, jira = None, slack = None, transformForSlack = None\<rparr> :: unit config)
     (commandLineArgs \<lparr>arg_config = None, arg_range = Some (js ''abc'' @ js ''...'' @ js ''def''),
        arg_date = None, arg_slack = False, arg_release = None, arg_operands = []\<rparr>)
     = Inr [(''from'', Str (js ''abc'')), (''to'', Str (js ''def''))] \<and>
   getRangeObject (\<lparr>sourceControl = None, jira = None, slack = None, transformForSlack = None\<rparr> :: unit config)
     (commandLineArgs \<lparr>arg_config = None, arg_range = Some (js ''a...b...c''),
        arg_date = None, arg_slack = False, arg_release = None, arg_operands = []\<rparr>)
     = Inr [(''from'', Str (js ''a'')), (''to'', Str (js ''b''))] \<and>
   getRangeObject (\<lparr>sourceControl = None, jira = None, slack = None, transformForSlack = None\<rparr> :: unit config)
     (commandLineArgs \<lparr>arg_config = None, arg_range = Some (js ''abc''),
        arg_date = None, arg_slack = False, arg_release = None, arg_operands = []\<rparr>)
     = Inr [(''from'', Str (js ''abc'')), (''to'', Undefined)]"
proof -
  let ?cfg = "\<lparr>sourceControl = None, jira = None, slack = None, transformForSlack = None\<rparr> :: unit config"
  let ?two = "\<lparr>arg_config = None, arg_range = Some (js ''abc'' @ js ''...'' @ js ''def''),
        arg_date = None, arg_slack = False, arg_release = None, arg_operands = []\<rparr>"
  let ?three = "\<lparr>arg_config = None, arg_range = Some (js ''a...b...c''),
        arg_date = None, arg_slack = False, arg_release = None, arg_operands = []\<rparr>"
  let ?one = "\<lparr>arg_config = None, arg_range = Some (js ''abc''),
        arg_date = None, arg_slack = False, arg_release = None, arg_operands = []\<rparr>"
  have given2: "arg_range ?two = Some (js ''abc'' @ js ''...'' @ js ''def'')"
    by simp
  have given3: "arg_range ?three = Some (js ''a...b...c'')"
    by simp
  have given1: "arg_range ?one = Some (js ''abc'')"
    by simp
  have left: "\<not> has_triple_dot (js ''abc'' @ js ''..'')"
    by (simp add: js_def dot_def)
  have right: "\<not> has_triple_dot (js ''def'')"
    by (simp add: js_def dot_def)
  have p3: "parseRange (js ''a...b...c'') = [js ''a'', js ''b'', js ''c'']"
    by (simp add: js_def dot_def)
  have p1: "parseRange (js ''abc'') = [js ''abc'']"
    by (simp add: js_def dot_def)
  have a: "parseRange (js ''abc'' @ js ''...'' @ js ''def'') = [js ''abc'', js ''def''] \<and>
      getRangeObject ?cfg (commandLineArgs ?two)
        = Inr [(''from'', Str (js ''abc'')), (''to'', Str (js ''def''))]"
    using getRangeObject_explicit_range [OF given2, of ?cfg "js ''abc''" "js ''def''"] left right
    by blast
  have b: "getRangeObject ?cfg (commandLineArgs ?three)
        = Inr [(''from'', Str (js ''a'')), (''to'', Str (js ''b''))]"
    using getRangeObject_explicit_range [OF given3, of ?cfg "[]" "[]"]
    by (auto simp: p3)
  have c: "getRangeObject ?cfg (commandLineArgs ?one)
        = Inr [(''from'', Str (js ''abc'')), (''to'', Undefined)]"
    using getRangeObject_explicit_range [OF given1, of ?cfg "[]" "[]"]
    by (auto simp: p1)
  from a b c show ?thesis
    by blast
qed

text \<open>
  C7, as the claim words it, fails: four dots are not one separator (the second token
  keeps a dot), and a string with two separators gives three tokens.
\<close>

theorem parseRange_separator_counterexample:
  "parseRange (js ''a....b'') = [js ''a'', js ''.b''] \<and>
   parseRange (js ''a....b'') \<noteq> [js ''a'', js ''b''] \<and>
   parseRange (js ''a...b...c'') = [js ''a'', js ''b'', js ''c''] \<and>
   length (parseRange (js ''a...b...c'')) \<noteq> 2"
  by (simp add: js_def dot_def)

lemma getRangeObject_no_cli_range_no_default:
  assumes "arg_range argv = None" and "object_keys (config_defaultRange config) = []"
  shows "getRangeObject config (commandLineArgs argv)
     = Inl (Error (js ''No range defined for the changelog.''))"
  using assms
  by (simp add: getRangeObject_def program_range program_dateRange has_length_def Let_def
      object_keys_def)

lemma getRangeObject_ignores_date:
  "getRangeObject config (commandLineArgs (argv\<lparr>arg_date := d\<rparr>))
     = getRangeObject config (commandLineArgs argv)"
  by (simp add: getRangeObject_def program_range program_dateRange)

lemma getRangeObject_reads_dateRange:
  assumes "get_prop (options prog) ''range'' = Undefined"
    and "get_prop (options prog) ''dateRange'' = Arr (d1 # ds)"
  shows "getRangeObject config prog =
     Inr ((''after'', Str d1) # (case ds of [] \<Rightarrow> [] | d2 # ds' \<Rightarrow> [(''before'', Str d2)]))"
  using assms
  by (cases ds) (simp_all add: getRangeObject_def has_length_def object_keys_def Let_def)

text \<open>
  C4.  \<^verbatim>\<open>--date 2020-01-01...2020-02-01\<close>: the two dates are stored in \<^verbatim>\<open>program.date\<close>, and
  \<^verbatim>\<open>program.dateRange\<close>, which \<open>getRangeObject\<close> reads, is undefined.  Without a default
  range the run fails for want of a range; with one, the default range is returned and
  has neither \<open>after\<close> nor \<open>before\<close>.
\<close>

theorem getRangeObject_date_option_unused:
  "get_prop (options (commandLineArgs
      \<lparr>arg_config = None, arg_range = None, arg_date = Some (js ''2020-01-01...2020-02-01''),
       arg_slack = False, arg_release = None, arg_operands = []\<rparr>)) ''date''
     = Arr [js ''2020-01-01'', js ''2020-02-01''] \<and>
   get_prop (options (commandLineArgs
      \<lparr>arg_config = None, arg_range = None, arg_date = Some (js ''2020-01-01...2020-02-01''),
       arg_slack = False, arg_release = None, arg_operands = []\<rparr>)) ''dateRange''
     = Undefined \<and>
   getRangeObject
     (\<lparr>sourceControl = None, jira = None, slack = None, transformForSlack = None\<rparr> :: unit config)
     (commandLineArgs
      \<lparr>arg_config = None, arg_range = None, arg_date = Some (js ''2020-01-01...2020-02-01''),
       arg_slack = False, arg_release = None, arg_operands = []\<rparr>)
     = Inl (Error (js ''No range defined for the changelog.'')) \<and>
   getRangeObject
     (\<lparr>sourceControl = Some \<lparr>defaultRange =
          Some [(''from'', Str (js ''origin/prod'')), (''to'', Str (js ''origin/master''))]\<rparr>,
       jira = None, slack = None, transformForSlack = None\<rparr> :: unit config)
     (commandLineArgs
      \<lparr>arg_config = None, arg_range = None, arg_date = Some (js ''2020-01-01...2020-02-01''),
       arg_slack = False, arg_release = None, arg_operands = []\<rparr>)
     = Inr [(''from'', Str (js ''origin/prod'')), (''to'', Str (js ''origin/master''))]"
proof -
  have p: "parseRange (js ''2020-01-01...2020-02-01'') = [js ''2020-01-01'', js ''2020-02-01'']"
    by (simp add: js_def dot_def)
  show ?thesis
    by (simp add: program_date program_dateRange program_range p getRangeObject_def
        has_length_def object_keys_def object_assign_def config_defaultRange_def Let_def)
qed

section \<open>Properties of the run\<close>




end
